theory Spec2Isabelle
  imports Complex_Main "HOL-Library.Char_ord" "HOL-Library.List_Lexorder"
begin

section \<open>Python strings and numbers\<close>

text \<open>
  A Python \<open>str\<close> is modelled as the list of its code points, for code points below 256
  (one \<open>char\<close> each). Python's \<open>int\<close> is \<open>int\<close>; a Python \<open>float\<close> is modelled as a
  \<open>real\<close>, so rounding, infinities and NaN are outside the model. A raise is a value of
  \<open>py_error\<close>, or \<open>None\<close> where the source only distinguishes success from failure.
\<close>

datatype py_error = ValueError string | IndexError string

fun err_msg :: "py_error \<Rightarrow> string" where
  \<comment> \<open>\<open>str(e)\<close>\<close>
  "err_msg (ValueError msg) = msg"
| "err_msg (IndexError msg) = msg"

definition is_space :: "char \<Rightarrow> bool" where
  \<comment> \<open>the characters \<open>str.strip()\<close> removes\<close>
  "is_space c = (of_char c \<in> {9, 10, 11, 12, 13, 28, 29, 30, 31, 32, 133, 160 :: nat})"

definition strip :: "string \<Rightarrow> string" where
  "strip s = rev (dropWhile is_space (rev (dropWhile is_space s)))"

definition is_num_space :: "char \<Rightarrow> bool" where
  \<comment> \<open>The characters \<open>int()\<close> and \<open>float()\<close> allow around a number: the builtins do
      not take the separators 28 to 31 for blanks, which \<open>str.strip()\<close> does.\<close>
  "is_num_space c = (of_char c \<in> {9, 10, 11, 12, 13, 32, 133, 160 :: nat})"

definition num_strip :: "string \<Rightarrow> string" where
  "num_strip s = rev (dropWhile is_num_space (rev (dropWhile is_num_space s)))"

fun split_on :: "char \<Rightarrow> string \<Rightarrow> string list" where
  \<comment> \<open>\<open>s.split(c)\<close> for a separator of one character: one more part than separators.\<close>
  "split_on c [] = [[]]"
| "split_on c (x # xs) =
     (if x = c then [] # split_on c xs
      else (case split_on c xs of
              [] \<Rightarrow> [[x]]
            | p # ps \<Rightarrow> (x # p) # ps))"

fun join :: "string \<Rightarrow> string list \<Rightarrow> string" where
  \<comment> \<open>\<open>sep.join(parts)\<close>\<close>
  "join sep [] = []"
| "join sep [p] = p"
| "join sep (p # q # ps) = p @ sep @ join sep (q # ps)"

definition is_digit :: "char \<Rightarrow> bool" where
  "is_digit c = (48 \<le> (of_char c :: nat) \<and> (of_char c :: nat) \<le> 57)"

definition digit_val :: "char \<Rightarrow> nat" where
  "digit_val c = of_char c - 48"

definition digit_char :: "nat \<Rightarrow> char" where
  "digit_char d = char_of (48 + d)"

fun int_digits :: "nat \<Rightarrow> string \<Rightarrow> nat option" where
  \<comment> \<open>The rest of a decimal literal after a digit: digits, with single underscores
      allowed between two digits.\<close>
  "int_digits acc [] = Some acc"
| "int_digits acc (c # r) =
     (if is_digit c then int_digits (10 * acc + digit_val c) r
      else if c = CHR ''_'' then
        (case r of
           [] \<Rightarrow> None
         | d # r' \<Rightarrow> if is_digit d then int_digits (10 * acc + digit_val d) r' else None)
      else None)"

definition int_body :: "string \<Rightarrow> nat option" where
  "int_body s =
     (case s of
        [] \<Rightarrow> None
      | c # r \<Rightarrow> if is_digit c then int_digits (digit_val c) r else None)"

definition py_int :: "string \<Rightarrow> int option" where
  \<comment> \<open>\<open>int(s)\<close> in base 10; \<open>None\<close> is the ValueError. (The limit of 4300 digits
      that recent interpreters put on \<open>int(s)\<close> is a setting of the interpreter and
      is not modelled.)\<close>
  "py_int s =
     (case num_strip s of
        [] \<Rightarrow> None
      | c # r \<Rightarrow>
          if c = CHR ''-'' then map_option (\<lambda>n. - int n) (int_body r)
          else if c = CHR ''+'' then map_option int (int_body r)
          else map_option int (int_body (c # r)))"

fun digits_of :: "nat \<Rightarrow> string" where
  \<comment> \<open>the decimal digits of a natural number, most significant first\<close>
  "digits_of n =
     (if n < 10 then [digit_char n] else digits_of (n div 10) @ [digit_char (n mod 10)])"

declare digits_of.simps [simp del]

definition fmt_d :: "nat \<Rightarrow> int \<Rightarrow> string" where
  \<comment> \<open>\<open>f"{n:0wd}"\<close>: zero padding to width \<open>w\<close>, the sign counted in the width\<close>
  "fmt_d w n =
     (if n < 0 then
        CHR ''-'' # replicate (w - 1 - length (digits_of (nat (- n)))) CHR ''0''
          @ digits_of (nat (- n))
      else replicate (w - length (digits_of (nat n))) CHR ''0'' @ digits_of (nat n))"

section \<open>Calendar utility\<close>

definition ym_str :: "int \<Rightarrow> int \<Rightarrow> string" where
  \<comment> \<open>\<open>f"{yy:04d}-{mm:02d}"\<close>\<close>
  "ym_str yy mm = fmt_d 4 yy @ ''-'' @ fmt_d 2 mm"

definition parse_ym :: "string \<Rightarrow> (int \<times> int) option" where
  \<comment> \<open>\<open>y, m = map(int, s.split("-"))\<close>: a ValueError (\<open>None\<close>) unless there are exactly
      two parts and \<open>int\<close> accepts both.\<close>
  "parse_ym s =
     (case split_on CHR ''-'' s of
        [a, b] \<Rightarrow>
          (case py_int a of
             None \<Rightarrow> None
           | Some y \<Rightarrow> (case py_int b of None \<Rightarrow> None | Some m \<Rightarrow> Some (y, m)))
      | _ \<Rightarrow> None)"

fun yms_loop :: "int \<Rightarrow> int \<Rightarrow> nat list \<Rightarrow> string list \<Rightarrow> string list" where
  \<comment> \<open>the body of \<open>for i in range(n)\<close>, appending to \<open>out\<close>\<close>
  "yms_loop y m [] out = out"
| "yms_loop y m (i # is) out =
     yms_loop y m is
       (out @ [ym_str (y + (m - 1 + int i) div 12) ((m - 1 + int i) mod 12 + 1)])"

definition yms :: "string \<Rightarrow> int \<Rightarrow> string list option" where
  "yms start_ym n =
     (case parse_ym start_ym of
        None \<Rightarrow> None
      | Some (y, m) \<Rightarrow> Some (yms_loop y m [0..<nat n] []))"

definition plus_month :: "int \<times> int \<Rightarrow> int \<times> int" where
  \<comment> \<open>\<open>new_m = m + 1; new_y = y; if new_m > 12: new_m = 1; new_y += 1\<close>\<close>
  "plus_month ym = (case ym of (y, m) \<Rightarrow> if m + 1 > 12 then (y + 1, 1) else (y, m + 1))"

definition minus_month :: "int \<times> int \<Rightarrow> int \<times> int" where
  \<comment> \<open>\<open>new_m = m - 1; new_y = y; if new_m < 1: new_m = 12; new_y -= 1\<close>\<close>
  "minus_month ym = (case ym of (y, m) \<Rightarrow> if m - 1 < 1 then (y - 1, 12) else (y, m - 1))"

definition shift_plus :: "string \<Rightarrow> string option" where
  \<comment> \<open>\<open>new_date\<close> of the handler "Shift Selected +1 Month"; \<open>None\<close> when the
      statements under \<open>try\<close> raise\<close>
  "shift_plus old_date =
     (case parse_ym old_date of
        None \<Rightarrow> None
      | Some ym \<Rightarrow> Some (case plus_month ym of (new_y, new_m) \<Rightarrow> ym_str new_y new_m))"

definition shift_minus :: "string \<Rightarrow> string option" where
  \<comment> \<open>\<open>new_date\<close> of the handler "Shift Selected -1 Month"\<close>
  "shift_minus old_date =
     (case parse_ym old_date of
        None \<Rightarrow> None
      | Some ym \<Rightarrow> Some (case minus_month ym of (new_y, new_m) \<Rightarrow> ym_str new_y new_m))"

definition is_ym :: "string \<Rightarrow> bool" where
  \<comment> \<open>a valid token \<open>YYYY-MM\<close>: four digits, a hyphen, two digits that read 01 to 12\<close>
  "is_ym s =
     (case s of
        [a, b, c, d, e, f, g] \<Rightarrow>
          is_digit a \<and> is_digit b \<and> is_digit c \<and> is_digit d \<and> e = CHR ''-'' \<and>
          is_digit f \<and> is_digit g \<and>
          1 \<le> 10 * digit_val f + digit_val g \<and> 10 * digit_val f + digit_val g \<le> 12
      | _ \<Rightarrow> False)"

section \<open>Record sets\<close>

text \<open>
  A row of the allocations frame. A cell that pandas reads as missing (NaN) is \<open>None\<close>
  for the two columns where the code meets it: \<open>Phase\<close> (\<open>groupby\<close> leaves such rows
  out, and \<open>==\<close> is false on them) and \<open>Employees\<close> (\<open>pd.notna\<close>).
\<close>

record alloc_row =
  Project :: string
  Date :: string
  Phase :: "string option"
  MM :: real
  Employees :: "string option"

record meta_row =
  meta_Project :: string
  Department :: string
  Total_MM :: real

definition ensure_columns :: "string list \<Rightarrow> string list \<Rightarrow> string \<Rightarrow> py_error + unit" where
  \<comment> \<open>\<open>columns\<close> stands for \<open>df.columns\<close>\<close>
  "ensure_columns columns required name =
     (let missing = filter (\<lambda>c. c \<notin> set columns) required
      in if missing \<noteq> [] then
           Inl (ValueError (name @ '' is missing required columns: '' @ join '', '' missing))
         else Inr ())"

definition load_checks :: "string list \<Rightarrow> string list \<Rightarrow> py_error + string list" where
  \<comment> \<open>The statements under \<open>try\<close> after the two frames are loaded; the result is the
      columns of \<open>alloc\<close>, with \<open>Employees\<close> added when it was absent.\<close>
  "load_checks meta_columns alloc_columns =
     (case ensure_columns meta_columns [''Project'', ''Department'', ''Total_MM'']
             ''Meta dataframe'' of
        Inl e \<Rightarrow> Inl e
      | Inr _ \<Rightarrow>
          (let alloc_columns' =
             (if ''Employees'' \<notin> set alloc_columns then alloc_columns @ [''Employees'']
              else alloc_columns)
           in case ensure_columns alloc_columns' [''Project'', ''Date'', ''Phase'', ''MM'']
                     ''Allocations dataframe'' of
                Inl e \<Rightarrow> Inl e
              | Inr _ \<Rightarrow> Inr alloc_columns'))"

datatype 'a run = Stopped string | Continued 'a

definition startup :: "string list \<Rightarrow> string list \<Rightarrow> (string list \<Rightarrow> 'a) \<Rightarrow> 'a run" where
  \<comment> \<open>\<open>except Exception as e: st.error(f"Data error: {e}"); st.stop()\<close>; \<open>rest\<close> is
      the script after the block, which computes every derived view.\<close>
  "startup meta_columns alloc_columns rest =
     (case load_checks meta_columns alloc_columns of
        Inl e \<Rightarrow> Stopped (''Data error: '' @ err_msg e)
      | Inr cols \<Rightarrow> Continued (rest cols))"

section \<open>Allocation index\<close>

definition select_rows :: "alloc_row list \<Rightarrow> string \<Rightarrow> string \<Rightarrow> alloc_row list" where
  \<comment> \<open>\<open>df_alloc[(df_alloc["Project"] == project) & (df_alloc["Date"] == ym)]\<close>\<close>
  "select_rows df_alloc project ym =
     filter (\<lambda>r. Project r = project \<and> Date r = ym) df_alloc"

definition phase_sum :: "alloc_row list \<Rightarrow> string \<Rightarrow> real" where
  "phase_sum rows k = sum_list (map MM (filter (\<lambda>r. Phase r = Some k) rows))"

definition groupby_phase_sum :: "alloc_row list \<Rightarrow> (string \<times> real) list" where
  \<comment> \<open>\<open>rows.groupby("Phase")["MM"].sum()\<close>: one entry per phase present, the keys in
      ascending order; rows with a missing phase belong to no group.\<close>
  "groupby_phase_sum rows =
     map (\<lambda>k. (k, phase_sum rows k)) (sort (remdups (List.map_filter Phase rows)))"

definition sort_values_desc :: "(string \<times> real) list \<Rightarrow> (string \<times> real) list" where
  \<comment> \<open>\<open>.sort_values(ascending=False)\<close>. pandas promises no order among equal values;
      the model keeps them in the order they had, which is what the default sort does on
      the few groups a month has.\<close>
  "sort_values_desc grp = sort_key (\<lambda>kv. - snd kv) grp"

definition month_mm_and_phase ::
  "alloc_row list \<Rightarrow> string \<Rightarrow> string \<Rightarrow> py_error + (real \<times> string option)" where
  "month_mm_and_phase df_alloc project ym =
     (let rows = select_rows df_alloc project ym
      in if rows = [] then Inr (0, None)
         else (case sort_values_desc (groupby_phase_sum rows) of
                 [] \<Rightarrow> Inl (IndexError ''index 0 is out of bounds for axis 0 with size 0'')
               | (phase, mm) # _ \<Rightarrow> Inr (mm, Some phase)))"

definition month_phase :: "alloc_row list \<Rightarrow> string \<Rightarrow> string \<Rightarrow> string option" where
  \<comment> \<open>the row with the biggest MM; \<open>str\<close> of a missing phase is \<open>"nan"\<close>\<close>
  "month_phase df_alloc project ym =
     (let rows = select_rows df_alloc project ym
      in case sort_key (\<lambda>r. - MM r) rows of
           [] \<Rightarrow> None
         | top_row # _ \<Rightarrow> Some (case Phase top_row of None \<Rightarrow> ''nan'' | Some p \<Rightarrow> p))"

section \<open>Employee allocations\<close>

record load =
  total_mm :: real
  projects :: "(string \<times> real) list"

type_synonym allocations = "((string \<times> string) \<times> load) list"
  \<comment> \<open>the dict \<open>employee_allocations\<close>, its items in insertion order\<close>

definition dict_update ::
  "string \<times> string \<Rightarrow> (load \<Rightarrow> load) \<Rightarrow> allocations \<Rightarrow> allocations" where
  "dict_update key f d = map (\<lambda>(k, v). if k = key then (k, f v) else (k, v)) d"

definition add_alloc ::
  "string \<times> string \<Rightarrow> string \<Rightarrow> real \<Rightarrow> allocations \<Rightarrow> allocations" where
  \<comment> \<open>the four statements that follow \<open>key = (name, row['Date'])\<close>\<close>
  "add_alloc key project mm d =
     (let d1 = (if key \<notin> fst ` set d then d @ [(key, \<lparr>total_mm = 0, projects = []\<rparr>)] else d);
          d2 = dict_update key (\<lambda>v. v\<lparr>total_mm := total_mm v + mm\<rparr>) d1
      in dict_update key (\<lambda>v. v\<lparr>projects := projects v @ [(project, mm)]\<rparr>) d2)"

definition seg_name :: "string \<Rightarrow> string" where
  \<comment> \<open>\<open>emp_part.split('(')[0].strip()\<close>\<close>
  "seg_name emp_part = strip (hd (split_on CHR ''('' emp_part))"

definition seg_number :: "string \<Rightarrow> string" where
  \<comment> \<open>\<open>emp_part.split('(')[1].split(')')[0]\<close>, read only when \<open>'(' in emp_part\<close>\<close>
  "seg_number emp_part = hd (split_on CHR '')'' (split_on CHR ''('' emp_part ! 1))"

definition has_parens :: "string \<Rightarrow> bool" where
  \<comment> \<open>\<open>'(' in emp_part and ')' in emp_part\<close>\<close>
  "has_parens emp_part = (CHR ''('' \<in> set emp_part \<and> CHR '')'' \<in> set emp_part)"

fun emp_loop ::
  "(string \<Rightarrow> real option) \<Rightarrow> alloc_row \<Rightarrow> string list \<Rightarrow> allocations \<Rightarrow> allocations" where
  \<comment> \<open>\<open>for emp_part in emp_parts\<close>, inside the \<open>try\<close> of one row. \<open>pyfloat\<close> stands for
      the builtin \<open>float\<close> (\<open>None\<close> is its ValueError): the error leaves the loop and
      \<open>except: pass\<close> swallows it, what the dict has received so far stays.\<close>
  "emp_loop pyfloat row [] d = d"
| "emp_loop pyfloat row (emp_part # rest) d =
     (if has_parens emp_part then
        (case pyfloat (seg_number emp_part) of
           None \<Rightarrow> d
         | Some mm \<Rightarrow>
             emp_loop pyfloat row rest
               (add_alloc (seg_name emp_part, Date row) (Project row) mm d))
      else emp_loop pyfloat row rest d)"

definition emp_parts :: "string \<Rightarrow> string list" where
  \<comment> \<open>\<open>[e.strip() for e in str(row['Employees']).split(',')]\<close>\<close>
  "emp_parts text = map strip (split_on CHR '','' text)"

definition row_step :: "(string \<Rightarrow> real option) \<Rightarrow> alloc_row \<Rightarrow> allocations \<Rightarrow> allocations" where
  \<comment> \<open>one turn of \<open>for _, row in alloc.iterrows()\<close>\<close>
  "row_step pyfloat row d =
     (case Employees row of
        None \<Rightarrow> d
      | Some text \<Rightarrow> if text = [] then d else emp_loop pyfloat row (emp_parts text) d)"

fun rows_loop ::
  "(string \<Rightarrow> real option) \<Rightarrow> alloc_row list \<Rightarrow> allocations \<Rightarrow> allocations" where
  "rows_loop pyfloat [] d = d"
| "rows_loop pyfloat (row # rows) d = rows_loop pyfloat rows (row_step pyfloat row d)"

definition employee_allocations :: "(string \<Rightarrow> real option) \<Rightarrow> alloc_row list \<Rightarrow> allocations" where
  "employee_allocations pyfloat alloc = rows_loop pyfloat alloc []"

fun emp_pairs :: "(string \<Rightarrow> real option) \<Rightarrow> string list \<Rightarrow> (string \<times> real) list" where
  \<comment> \<open>the (name, mm) pairs that \<open>emp_loop\<close> hands to the dict, in order\<close>
  "emp_pairs pyfloat [] = []"
| "emp_pairs pyfloat (emp_part # rest) =
     (if has_parens emp_part then
        (case pyfloat (seg_number emp_part) of
           None \<Rightarrow> []
         | Some mm \<Rightarrow> (seg_name emp_part, mm) # emp_pairs pyfloat rest)
      else emp_pairs pyfloat rest)"

fun read_digits :: "nat \<Rightarrow> nat \<Rightarrow> string \<Rightarrow> nat \<times> nat \<times> string" where
  \<comment> \<open>The rest of a \<open>digitpart\<close> of a float literal after a digit: the value, the
      number of digits, and the text that follows the last digit.\<close>
  "read_digits acc k [] = (acc, k, [])"
| "read_digits acc k (c # r) =
     (if is_digit c then read_digits (10 * acc + digit_val c) (Suc k) r
      else if c = CHR ''_'' then
        (case r of
           [] \<Rightarrow> (acc, k, c # r)
         | d # r' \<Rightarrow>
             if is_digit d then read_digits (10 * acc + digit_val d) (Suc k) r'
             else (acc, k, c # r))
      else (acc, k, c # r))"

definition digitpart :: "string \<Rightarrow> (nat \<times> nat \<times> string) option" where
  "digitpart s =
     (case s of
        [] \<Rightarrow> None
      | c # r \<Rightarrow> if is_digit c then Some (read_digits (digit_val c) 1 r) else None)"

definition pointfloat :: "string \<Rightarrow> (real \<times> string) option" where
  \<comment> \<open>\<open>[digitpart] "." digitpart | digitpart ["."]\<close>, and the text after it\<close>
  "pointfloat s =
     (case digitpart s of
        Some (i, _, r) \<Rightarrow>
          (case r of
             [] \<Rightarrow> Some (real i, [])
           | c # r' \<Rightarrow>
               if c = CHR ''.'' then
                 (case digitpart r' of
                    Some (f, k, r'') \<Rightarrow> Some (real i + real f / 10 ^ k, r'')
                  | None \<Rightarrow> Some (real i, r'))
               else Some (real i, r))
      | None \<Rightarrow>
          (case s of
             [] \<Rightarrow> None
           | c # r' \<Rightarrow>
               if c = CHR ''.'' then
                 (case digitpart r' of
                    Some (f, k, r'') \<Rightarrow> Some (real f / 10 ^ k, r'')
                  | None \<Rightarrow> None)
               else None))"

definition exp_digits :: "string \<Rightarrow> int option" where
  "exp_digits t =
     (case digitpart t of
        Some (e, _, r) \<Rightarrow> if r = [] then Some (int e) else None
      | None \<Rightarrow> None)"

definition exponent :: "string \<Rightarrow> int option" where
  \<comment> \<open>the optional \<open>("e" | "E") ["+" | "-"] digitpart\<close> that ends a float literal\<close>
  "exponent r =
     (case r of
        [] \<Rightarrow> Some 0
      | c # r' \<Rightarrow>
          if c = CHR ''e'' \<or> c = CHR ''E'' then
            (case r' of
               [] \<Rightarrow> None
             | s # r'' \<Rightarrow>
                 if s = CHR ''+'' then exp_digits r''
                 else if s = CHR ''-'' then map_option uminus (exp_digits r'')
                 else exp_digits r')
          else None)"

definition abs_float :: "string \<Rightarrow> real option" where
  "abs_float t =
     (case pointfloat t of
        None \<Rightarrow> None
      | Some (m, r) \<Rightarrow>
          (case exponent r of
             None \<Rightarrow> None
           | Some e \<Rightarrow> Some (if 0 \<le> e then m * 10 ^ nat e else m / 10 ^ nat (- e))))"

definition py_float :: "string \<Rightarrow> real option" where
  \<comment> \<open>\<open>float(s)\<close>: blanks around, a sign, a decimal literal with an optional
      exponent; \<open>None\<close> is the ValueError. The value is the exact one (the builtin rounds
      it to a double). The builtin also reads \<open>inf\<close>, \<open>infinity\<close> and \<open>nan\<close>, which have
      no value in \<open>real\<close>: the model does not cover annotations that hold them, and
      \<open>py_float\<close> gives \<open>None\<close> there.\<close>
  "py_float s =
     (case num_strip s of
        [] \<Rightarrow> None
      | c # r \<Rightarrow>
          if c = CHR ''-'' then map_option uminus (abs_float r)
          else if c = CHR ''+'' then abs_float r
          else abs_float (c # r))"

fun names_loop :: "string list \<Rightarrow> string list \<Rightarrow> string list" where
  \<comment> \<open>The loop over the segments of one row that collects \<open>all_employees\<close> for the
      utilization grid (the set as a list without repetition): it reads every segment
      that holds a \<open>(\<close>.\<close>
  "names_loop [] all_employees = all_employees"
| "names_loop (emp_part # rest) all_employees =
     names_loop rest
       (if CHR ''('' \<in> set emp_part then List.insert (seg_name emp_part) all_employees
        else all_employees)"

definition names_step :: "alloc_row \<Rightarrow> string list \<Rightarrow> string list" where
  "names_step row all_employees =
     (case Employees row of
        None \<Rightarrow> all_employees
      | Some text \<Rightarrow>
          if text = [] then all_employees else names_loop (emp_parts text) all_employees)"

fun names_rows :: "alloc_row list \<Rightarrow> string list \<Rightarrow> string list" where
  "names_rows [] all_employees = all_employees"
| "names_rows (row # rows) all_employees = names_rows rows (names_step row all_employees)"

definition all_employees :: "alloc_row list \<Rightarrow> string list" where
  "all_employees alloc = names_rows alloc []"

section \<open>Conflicts, utilization bands, capacity\<close>

record conflict =
  employee :: string
  month :: string
  conflict_total_mm :: real
  percent :: real
  conflict_projects :: "(string \<times> real) list"

fun conflicts_loop :: "allocations \<Rightarrow> conflict list \<Rightarrow> conflict list" where
  \<comment> \<open>\<open>for (emp, date), data in employee_allocations.items()\<close>\<close>
  "conflicts_loop [] conflicts = conflicts"
| "conflicts_loop (((emp, date), data) # items) conflicts =
     conflicts_loop items
       (if total_mm data > 4.0 then
          conflicts @ [\<lparr>employee = emp, month = date, conflict_total_mm = total_mm data,
                        percent = (total_mm data / 4.0) * 100,
                        conflict_projects = projects data\<rparr>]
        else conflicts)"

definition find_conflicts :: "allocations \<Rightarrow> conflict list" where
  "find_conflicts d = conflicts_loop d []"

definition cell_class :: "real \<Rightarrow> string" where
  "cell_class pct =
     (if pct = 0 then []
      else if pct < 50 then ''low''
      else if pct < 75 then ''medium''
      else if pct \<le> 100 then ''high''
      else ''over'')"

definition meta_view :: "meta_row list \<Rightarrow> string \<Rightarrow> meta_row list" where
  "meta_view meta dept =
     (if dept \<noteq> ''All'' then filter (\<lambda>r. Department r = dept) meta else meta)"

definition month_total :: "alloc_row list \<Rightarrow> string \<Rightarrow> real" where
  \<comment> \<open>\<open>alloc[alloc['Date'] == month]['MM'].sum()\<close>\<close>
  "month_total alloc m = sum_list (map MM (filter (\<lambda>r. Date r = m) alloc))"

record capacity =
  cap_month :: string
  cap_total_mm :: real
  available :: real

definition capacity_data :: "alloc_row list \<Rightarrow> string list \<Rightarrow> capacity list" where
  \<comment> \<open>\<open>for month in all_months[:6]\<close>\<close>
  "capacity_data alloc all_months =
     map (\<lambda>m. \<lparr>cap_month = m, cap_total_mm = month_total alloc m, available = 40\<rparr>)
       (take 6 all_months)"

record session =
  alloc_data :: "alloc_row list"
  meta_data :: "meta_row list"

definition capacity_section :: "session \<Rightarrow> string \<Rightarrow> string list \<Rightarrow> capacity list" where
  \<comment> \<open>The script from the department filter to the capacity grid: \<open>dept\<close> is the
      selection of the department box.\<close>
  "capacity_section st dept all_months =
     (let alloc = alloc_data st;
          meta = meta_data st;
          meta_view = meta_view meta dept
      in capacity_data alloc all_months)"

section \<open>Bulk month shift\<close>

definition same_phase :: "string option \<Rightarrow> string option \<Rightarrow> bool" where
  \<comment> \<open>\<open>==\<close> of pandas on the Phase column: false when either side is missing\<close>
  "same_phase a b = (a \<noteq> None \<and> a = b)"

definition set_date :: "alloc_row \<Rightarrow> string \<Rightarrow> alloc_row list \<Rightarrow> alloc_row list" where
  \<comment> \<open>\<open>alloc_data.loc[mask, "Date"] = new_date\<close>, the mask taken from the edited row\<close>
  "set_date e new_date data =
     map (\<lambda>r. if Project r = Project e \<and> Date r = Date e \<and> same_phase (Phase r) (Phase e)
               then r\<lparr>Date := new_date\<rparr> else r) data"

fun shift_rows ::
  "(string \<Rightarrow> string option) \<Rightarrow> alloc_row list \<Rightarrow> alloc_row list \<Rightarrow> alloc_row list" where
  \<comment> \<open>\<open>for idx in edited_alloc.index\<close>, with \<open>try ... except: pass\<close> around each turn;
      \<open>shift\<close> computes \<open>new_date\<close> or fails.\<close>
  "shift_rows shift [] data = data"
| "shift_rows shift (e # edited) data =
     (case shift (Date e) of
        None \<Rightarrow> shift_rows shift edited data
      | Some new_date \<Rightarrow> shift_rows shift edited (set_date e new_date data))"

definition shift_selected_plus :: "alloc_row list \<Rightarrow> alloc_row list \<Rightarrow> alloc_row list" where
  "shift_selected_plus edited_alloc data =
     (if length edited_alloc > 0 then shift_rows shift_plus edited_alloc data else data)"

definition shift_selected_minus :: "alloc_row list \<Rightarrow> alloc_row list \<Rightarrow> alloc_row list" where
  "shift_selected_minus edited_alloc data =
     (if length edited_alloc > 0 then shift_rows shift_minus edited_alloc data else data)"

section \<open>Digits, parsing and formatting\<close>

lemma digit_char_val: "is_digit c \<Longrightarrow> digit_char (digit_val c) = c"
  by (simp add: is_digit_def digit_char_def digit_val_def)

lemma digit_val_lt: "is_digit c \<Longrightarrow> digit_val c < 10"
  by (auto simp add: is_digit_def digit_val_def)

lemma digit_not_sep:
  "is_digit c \<Longrightarrow> c \<noteq> CHR ''-'' \<and> c \<noteq> CHR ''+'' \<and> c \<noteq> CHR ''_'' \<and> \<not> is_num_space c"
  by (auto simp add: is_digit_def is_num_space_def)

lemma strip_digits2: "is_digit a \<Longrightarrow> is_digit b \<Longrightarrow> num_strip [a, b] = [a, b]"
  by (simp add: num_strip_def digit_not_sep)

lemma strip_digits4:
  "is_digit a \<Longrightarrow> is_digit b \<Longrightarrow> is_digit c \<Longrightarrow> is_digit d \<Longrightarrow> num_strip [a, b, c, d] = [a, b, c, d]"
  by (simp add: num_strip_def digit_not_sep)

lemma py_int_digits2:
  "is_digit a \<Longrightarrow> is_digit b \<Longrightarrow> py_int [a, b] = Some (int (10 * digit_val a + digit_val b))"
  by (simp add: py_int_def strip_digits2 int_body_def digit_not_sep)

lemma py_int_digits4:
  "is_digit a \<Longrightarrow> is_digit b \<Longrightarrow> is_digit c \<Longrightarrow> is_digit d \<Longrightarrow>
   py_int [a, b, c, d] =
     Some (int (1000 * digit_val a + 100 * digit_val b + 10 * digit_val c + digit_val d))"
  by (simp add: py_int_def strip_digits4 int_body_def digit_not_sep)

lemma digit_char_0: "digit_char 0 = CHR ''0''"
  by (simp add: digit_char_def char_of_eq_iff take_bit_eq_mod)

lemma digits_of_small: "n < 10 \<Longrightarrow> digits_of n = [digit_char n]"
  by (simp add: digits_of.simps [of n])

lemma digits_of_large:
  "10 \<le> n \<Longrightarrow> digits_of n = digits_of (n div 10) @ [digit_char (n mod 10)]"
  by (simp add: digits_of.simps [of n])

lemma replicate_zeros:
  "replicate 1 c = [c]" "replicate 2 c = [c, c]" "replicate 3 c = [c, c, c]"
  by (simp_all add: numeral_2_eq_2 numeral_3_eq_3)

lemma fmt_nat2:
  assumes "n < 100"
  shows "fmt_d 2 (int n) = [digit_char (n div 10), digit_char (n mod 10)]"
proof (cases "n < 10")
  case True
  then have "digits_of n = [digit_char n]" by (rule digits_of_small)
  with True show ?thesis by (simp add: fmt_d_def digit_char_0)
next
  case False
  with assms have "n div 10 < 10" "10 \<le> n" by auto
  then have "digits_of n = [digit_char (n div 10), digit_char (n mod 10)]"
    by (simp add: digits_of_large digits_of_small)
  then show ?thesis by (simp add: fmt_d_def)
qed

lemma fmt_nat4:
  assumes "n < 10000"
  shows "fmt_d 4 (int n) =
     [digit_char (n div 1000), digit_char (n div 100 mod 10), digit_char (n div 10 mod 10),
      digit_char (n mod 10)]"
proof -
  have e: "n div 10 div 10 = n div 100" "n div 100 div 10 = n div 1000"
    by (simp_all add: div_mult2_eq [symmetric])
  consider "n < 10" | "10 \<le> n" "n < 100" | "100 \<le> n" "n < 1000" | "1000 \<le> n"
    by linarith
  then show ?thesis
  proof cases
    case 1
    then have "digits_of n = [digit_char n]" by (rule digits_of_small)
    moreover from 1 have "n div 1000 = 0" "n div 100 = 0" "n div 10 = 0" "n mod 10 = n" by auto
    ultimately show ?thesis by (simp add: fmt_d_def digit_char_0 replicate_zeros)
  next
    case 2
    then have "n div 10 < 10" by auto
    with 2 have "digits_of n = [digit_char (n div 10), digit_char (n mod 10)]"
      by (simp add: digits_of_large digits_of_small)
    moreover from 2 have "n div 1000 = 0" "n div 100 = 0" "n div 10 mod 10 = n div 10" by auto
    ultimately show ?thesis by (simp add: fmt_d_def digit_char_0 replicate_zeros)
  next
    case 3
    then have h: "10 \<le> n" "10 \<le> n div 10" "n div 100 < 10" by auto
    have "digits_of n = digits_of (n div 10) @ [digit_char (n mod 10)]"
      using h(1) by (rule digits_of_large)
    also have "digits_of (n div 10) = digits_of (n div 100) @ [digit_char (n div 10 mod 10)]"
      using digits_of_large [OF h(2)] by (simp add: e)
    also have "digits_of (n div 100) = [digit_char (n div 100)]"
      using h(3) by (rule digits_of_small)
    finally have "digits_of n =
        [digit_char (n div 100), digit_char (n div 10 mod 10), digit_char (n mod 10)]"
      by simp
    moreover from 3 have "n div 1000 = 0" "n div 100 mod 10 = n div 100" by auto
    ultimately show ?thesis by (simp add: fmt_d_def digit_char_0 replicate_zeros)
  next
    case 4
    with assms have h: "10 \<le> n" "10 \<le> n div 10" "10 \<le> n div 100" "n div 1000 < 10" by auto
    have "digits_of n = digits_of (n div 10) @ [digit_char (n mod 10)]"
      using h(1) by (rule digits_of_large)
    also have "digits_of (n div 10) = digits_of (n div 100) @ [digit_char (n div 10 mod 10)]"
      using digits_of_large [OF h(2)] by (simp add: e)
    also have "digits_of (n div 100) = digits_of (n div 1000) @ [digit_char (n div 100 mod 10)]"
      using digits_of_large [OF h(3)] by (simp add: e)
    also have "digits_of (n div 1000) = [digit_char (n div 1000)]"
      using h(4) by (rule digits_of_small)
    finally have "digits_of n =
        [digit_char (n div 1000), digit_char (n div 100 mod 10), digit_char (n div 10 mod 10),
         digit_char (n mod 10)]"
      by simp
    then show ?thesis by (simp add: fmt_d_def)
  qed
qed

lemma is_ymE:
  assumes "is_ym s"
  obtains a b c d f g where "s = [a, b, c, d, CHR ''-'', f, g]"
    "is_digit a" "is_digit b" "is_digit c" "is_digit d" "is_digit f" "is_digit g"
    "1 \<le> 10 * digit_val f + digit_val g" "10 * digit_val f + digit_val g \<le> 12"
  using assms unfolding is_ym_def by (auto split: list.splits)

lemma nat_dm:
  fixes k a r :: nat
  assumes "r < k"
  shows "(k * a + r) div k = a" "(k * a + r) mod k = r"
  using assms by simp_all

lemma int_dm:
  fixes k q r :: int
  assumes "0 \<le> r" "r < k"
  shows "(k * q + r) div k = q" "(k * q + r) mod k = r"
  using assms by simp_all

lemma dec4:
  fixes a b c d :: nat
  assumes "a < 10" "b < 10" "c < 10" "d < 10"
  shows "1000 * a + 100 * b + 10 * c + d < 10000"
    "(1000 * a + 100 * b + 10 * c + d) div 1000 = a"
    "(1000 * a + 100 * b + 10 * c + d) div 100 mod 10 = b"
    "(1000 * a + 100 * b + 10 * c + d) div 10 mod 10 = c"
    "(1000 * a + 100 * b + 10 * c + d) mod 10 = d"
proof -
  let ?n = "1000 * a + 100 * b + 10 * c + d"
  show "?n < 10000" using assms by linarith
  have "?n = 1000 * a + (100 * b + 10 * c + d)" "100 * b + 10 * c + d < 1000"
    using assms by linarith+
  then show "?n div 1000 = a" using nat_dm(1) by metis
  have "?n = 100 * (10 * a + b) + (10 * c + d)" "10 * c + d < 100"
    using assms by simp_all
  then have "?n div 100 = 10 * a + b" using nat_dm(1) by metis
  then show "?n div 100 mod 10 = b" using nat_dm(2) [of b 10 a] assms by simp
  have "?n = 10 * (100 * a + 10 * b + c) + d"
    by simp
  then have "?n div 10 = 100 * a + 10 * b + c" "?n mod 10 = d"
    using nat_dm [of d 10 "100 * a + 10 * b + c"] assms by simp_all
  then show "?n mod 10 = d" by simp
  have "100 * a + 10 * b + c = 10 * (10 * a + b) + c" by simp
  then have "(100 * a + 10 * b + c) mod 10 = c" using nat_dm(2) [of c 10 "10 * a + b"] assms by simp
  then show "?n div 10 mod 10 = c" using \<open>?n div 10 = 100 * a + 10 * b + c\<close> by simp
qed

lemma dec2:
  fixes f g :: nat
  assumes "f < 10" "g < 10"
  shows "10 * f + g < 100" "(10 * f + g) div 10 = f" "(10 * f + g) mod 10 = g"
  using assms by simp_all

lemma split_on_token:
  assumes "is_digit a" "is_digit b" "is_digit c" "is_digit d" "is_digit f" "is_digit g"
  shows "split_on CHR ''-'' [a, b, c, d, CHR ''-'', f, g] = [[a, b, c, d], [f, g]]"
  using assms by (simp add: digit_not_sep)

lemma ym_str_digits:
  assumes "is_digit a" "is_digit b" "is_digit c" "is_digit d" "is_digit f" "is_digit g"
  shows "ym_str (int (1000 * digit_val a + 100 * digit_val b + 10 * digit_val c + digit_val d))
           (int (10 * digit_val f + digit_val g)) = [a, b, c, d, CHR ''-'', f, g]"
proof -
  note lt = assms [THEN digit_val_lt]
  note y = dec4 [OF lt(1-4)]
  note m = dec2 [OF lt(5-6)]
  show ?thesis
    unfolding ym_str_def fmt_nat4 [OF y(1)] fmt_nat2 [OF m(1)] y m
    using assms by (simp add: digit_char_val)
qed

lemma parse_ym_valid:
  assumes "is_ym s"
  shows "\<exists>y m. parse_ym s = Some (y, m) \<and> ym_str y m = s \<and>
           0 \<le> y \<and> y \<le> 9999 \<and> 1 \<le> m \<and> m \<le> 12"
proof -
  from assms obtain a b c d f g where s: "s = [a, b, c, d, CHR ''-'', f, g]"
    and dg: "is_digit a" "is_digit b" "is_digit c" "is_digit d" "is_digit f" "is_digit g"
    and m: "1 \<le> 10 * digit_val f + digit_val g" "10 * digit_val f + digit_val g \<le> 12"
    by (rule is_ymE)
  let ?y = "1000 * digit_val a + 100 * digit_val b + 10 * digit_val c + digit_val d"
  let ?m = "10 * digit_val f + digit_val g"
  have "parse_ym s = Some (int ?y, int ?m)"
    unfolding parse_ym_def s split_on_token [OF dg]
    using dg by (simp add: py_int_digits4 py_int_digits2)
  moreover have "ym_str (int ?y) (int ?m) = s"
    unfolding s using dg by (rule ym_str_digits)
  moreover have "?y \<le> 9999"
    using dg(1-4) [THEN digit_val_lt] by linarith
  ultimately show ?thesis using m by auto
qed

section \<open>Month sequences and shifts\<close>

lemma plus_month_iter:
  assumes "1 \<le> m" "m \<le> 12"
  shows "(plus_month ^^ i) (y, m) = (y + (m - 1 + int i) div 12, (m - 1 + int i) mod 12 + 1)"
proof (induction i)
  case 0
  from assms show ?case by simp
next
  case (Suc i)
  let ?k = "m - 1 + int i"
  define q where "q = ?k div 12"
  define r where "r = ?k mod 12"
  have r: "0 \<le> r" "r < 12" by (simp_all add: r_def)
  have k: "m - 1 + int (Suc i) = 12 * q + (r + 1)" by (simp add: q_def r_def)
  show ?case
  proof (cases "r = 11")
    case True
    then have "m - 1 + int (Suc i) = 12 * (q + 1) + 0" using k by simp
    then have "(m - 1 + int (Suc i)) div 12 = q + 1" "(m - 1 + int (Suc i)) mod 12 = 0"
      using int_dm [of 0 12 "q + 1"] by simp_all
    with True Suc show ?thesis by (simp add: plus_month_def q_def r_def)
  next
    case False
    with r have "0 \<le> r + 1" "r + 1 < 12" by linarith+
    then have "(m - 1 + int (Suc i)) div 12 = q" "(m - 1 + int (Suc i)) mod 12 = r + 1"
      using int_dm [of "r + 1" 12 q] k by simp_all
    with False Suc show ?thesis by (simp add: plus_month_def q_def r_def)
  qed
qed

lemma yms_loop_map:
  "yms_loop y m is out =
     out @ map (\<lambda>i. ym_str (y + (m - 1 + int i) div 12) ((m - 1 + int i) mod 12 + 1)) is"
  by (induction "is" arbitrary: out) simp_all

lemma yms_valid:
  assumes "parse_ym s = Some (y, m)" "1 \<le> m" "m \<le> 12"
  shows "yms s n = Some (map (\<lambda>i. case_prod ym_str ((plus_month ^^ i) (y, m))) [0..<nat n])"
  using assms by (simp add: yms_def yms_loop_map plus_month_iter)

text \<open>
  Claim C6. For a valid token \<open>YYYY-MM\<close> and a count \<open>n \<ge> 0\<close>, \<open>yms\<close> returns
  exactly \<open>n\<close> tokens: none when \<open>n = 0\<close>, the first is the start token, and the token
  at position \<open>i\<close> is the start advanced by \<open>i\<close> calendar months, each step being the
  step of the "+1 month" handler (month 12 is followed by month 1 of the next year).
  \<open>yms("2025-11", 3)\<close> is \<open>["2025-11", "2025-12", "2026-01"]\<close>.
\<close>

theorem yms_sequence:
  "(is_ym s \<and> 0 \<le> n \<longrightarrow>
      (\<exists>y m out. parse_ym s = Some (y, m) \<and> yms s n = Some out \<and>
         int (length out) = n \<and> (n = 0 \<longrightarrow> out = []) \<and> (0 < n \<longrightarrow> out ! 0 = s) \<and>
         (\<forall>i < length out. out ! i = case_prod ym_str ((plus_month ^^ i) (y, m))))) \<and>
   yms ''2025-11'' 3 = Some [''2025-11'', ''2025-12'', ''2026-01'']"
proof (intro conjI impI)
  assume a: "is_ym s \<and> 0 \<le> n"
  then obtain y m where p: "parse_ym s = Some (y, m)" "ym_str y m = s" "1 \<le> m" "m \<le> 12"
    using parse_ym_valid by blast
  let ?out = "map (\<lambda>i. case_prod ym_str ((plus_month ^^ i) (y, m))) [0..<nat n]"
  have "yms s n = Some ?out" using p(1,3,4) by (rule yms_valid)
  moreover have "int (length ?out) = n" using a by simp
  moreover have "n = 0 \<longrightarrow> ?out = []" by simp
  moreover have "0 < n \<longrightarrow> ?out ! 0 = s" using p(2) by simp
  moreover have "\<forall>i < length ?out. ?out ! i = case_prod ym_str ((plus_month ^^ i) (y, m))"
    by simp
  ultimately show "\<exists>y m out. parse_ym s = Some (y, m) \<and> yms s n = Some out \<and>
         int (length out) = n \<and> (n = 0 \<longrightarrow> out = []) \<and> (0 < n \<longrightarrow> out ! 0 = s) \<and>
         (\<forall>i < length out. out ! i = case_prod ym_str ((plus_month ^^ i) (y, m)))"
    using p(1) by blast
next
  show "yms ''2025-11'' 3 = Some [''2025-11'', ''2025-12'', ''2026-01'']"
    by code_simp
qed

theorem yms_sequence_witness:
  "is_ym ''2025-11'' \<and> (0::int) \<le> 3 \<and>
   (\<exists>y m out. parse_ym ''2025-11'' = Some (y, m) \<and> yms ''2025-11'' 3 = Some out \<and>
      int (length out) = 3 \<and> out ! 0 = ''2025-11'' \<and>
      (\<forall>i < length out. out ! i = case_prod ym_str ((plus_month ^^ i) (y, m))))"
proof -
  have h: "is_ym ''2025-11'' \<and> (0::int) \<le> 3" by code_simp
  with yms_sequence [of "''2025-11''" 3] show ?thesis by auto
qed

text \<open>
  Claim C7. For a valid token \<open>YYYY-MM\<close> the two shift handlers compute: one month
  forward, where month 12 becomes month 1 of the next year; one month back, where month 1
  becomes month 12 of the year before. \<open>"2025-01"\<close> shifted back is \<open>"2024-12"\<close>,
  \<open>"2025-12"\<close> shifted forward is \<open>"2026-01"\<close>.
\<close>

theorem shift_rollover:
  "(is_ym s \<longrightarrow>
      (\<exists>y m. parse_ym s = Some (y, m) \<and> ym_str y m = s \<and> 1 \<le> m \<and> m \<le> 12 \<and>
         shift_plus s = Some (if m = 12 then ym_str (y + 1) 1 else ym_str y (m + 1)) \<and>
         shift_minus s = Some (if m = 1 then ym_str (y - 1) 12 else ym_str y (m - 1)))) \<and>
   shift_minus ''2025-01'' = Some ''2024-12'' \<and> shift_plus ''2025-12'' = Some ''2026-01''"
proof (intro conjI impI)
  assume "is_ym s"
  then obtain y m where p: "parse_ym s = Some (y, m)" "ym_str y m = s" "1 \<le> m" "m \<le> 12"
    using parse_ym_valid by blast
  have "shift_plus s = Some (if m = 12 then ym_str (y + 1) 1 else ym_str y (m + 1))"
    using p by (simp add: shift_plus_def plus_month_def)
  moreover have "shift_minus s = Some (if m = 1 then ym_str (y - 1) 12 else ym_str y (m - 1))"
    using p by (simp add: shift_minus_def minus_month_def)
  ultimately show "\<exists>y m. parse_ym s = Some (y, m) \<and> ym_str y m = s \<and> 1 \<le> m \<and> m \<le> 12 \<and>
         shift_plus s = Some (if m = 12 then ym_str (y + 1) 1 else ym_str y (m + 1)) \<and>
         shift_minus s = Some (if m = 1 then ym_str (y - 1) 12 else ym_str y (m - 1))"
    using p by blast
next
  show "shift_minus ''2025-01'' = Some ''2024-12''" by code_simp
next
  show "shift_plus ''2025-12'' = Some ''2026-01''" by code_simp
qed

theorem shift_rollover_witness:
  "is_ym ''2025-12'' \<and>
   (\<exists>y m. parse_ym ''2025-12'' = Some (y, m) \<and> ym_str y m = ''2025-12'' \<and> 1 \<le> m \<and> m \<le> 12 \<and>
      shift_plus ''2025-12'' = Some (if m = 12 then ym_str (y + 1) 1 else ym_str y (m + 1)) \<and>
      shift_minus ''2025-12'' = Some (if m = 1 then ym_str (y - 1) 12 else ym_str y (m - 1)))"
proof -
  have h: "is_ym ''2025-12''" by code_simp
  with shift_rollover [of "''2025-12''"] show ?thesis by blast
qed

section \<open>Bulk month shift\<close>

lemma shift_plus_None: "shift_plus d = None \<longleftrightarrow> parse_ym d = None"
  by (simp add: shift_plus_def split: option.splits)

lemma shift_minus_None: "shift_minus d = None \<longleftrightarrow> parse_ym d = None"
  by (simp add: shift_minus_def split: option.splits)

lemma length_set_date: "length (set_date e new_date data) = length data"
  by (simp add: set_date_def)

lemma length_shift_rows: "length (shift_rows shift edited data) = length data"
  by (induction edited arbitrary: data) (simp_all add: length_set_date split: option.splits)

lemma set_date_other:
  assumes "i < length data" "Date (data ! i) \<noteq> Date e"
  shows "set_date e new_date data ! i = data ! i"
  using assms by (simp add: set_date_def)

lemma shift_rows_keeps:
  assumes "i < length data" "shift (Date (data ! i)) = None"
  shows "shift_rows shift edited data ! i = data ! i"
  using assms
proof (induction edited arbitrary: data)
  case Nil
  then show ?case by simp
next
  case (Cons e edited)
  show ?case
  proof (cases "shift (Date e)")
    case None
    with Cons show ?thesis by simp
  next
    case (Some new_date)
    with Cons.prems have ne: "Date (data ! i) \<noteq> Date e" by auto
    have same: "set_date e new_date data ! i = data ! i"
      using Cons.prems(1) ne by (rule set_date_other)
    have "shift_rows shift edited (set_date e new_date data) ! i = set_date e new_date data ! i"
      using Cons.prems by (intro Cons.IH) (simp_all add: length_set_date same)
    with Some same show ?thesis by simp
  qed
qed

lemma shift_rows_filter:
  "shift_rows shift edited data = shift_rows shift (filter (\<lambda>e. shift (Date e) \<noteq> None) edited) data"
  by (induction edited arbitrary: data) (auto split: option.splits)

text \<open>
  Claim C8 as the spec states it fails: the handlers do not check that a token is a valid
  \<open>YYYY-MM\<close>, only that it reads as two integers around one hyphen. \<open>"2025-13"\<close> and
  \<open>"2025-1"\<close> are not valid tokens, yet nothing is raised and the dates are rewritten.
\<close>

theorem bulk_shift_invalid_token_counterexample:
  "\<not> is_ym ''2025-13'' \<and>
   shift_selected_plus
     [\<lparr>Project = ''P'', Date = ''2025-13'', Phase = Some ''Design'', MM = 3, Employees = None\<rparr>]
     [\<lparr>Project = ''P'', Date = ''2025-13'', Phase = Some ''Design'', MM = 3, Employees = None\<rparr>] =
     [\<lparr>Project = ''P'', Date = ''2026-01'', Phase = Some ''Design'', MM = 3, Employees = None\<rparr>] \<and>
   \<not> is_ym ''2025-1'' \<and>
   shift_selected_minus
     [\<lparr>Project = ''P'', Date = ''2025-1'', Phase = Some ''Design'', MM = 3, Employees = None\<rparr>]
     [\<lparr>Project = ''P'', Date = ''2025-1'', Phase = Some ''Design'', MM = 3, Employees = None\<rparr>] =
     [\<lparr>Project = ''P'', Date = ''2024-12'', Phase = Some ''Design'', MM = 3, Employees = None\<rparr>]"
  by code_simp

text \<open>
  Claim C8, amended. The handler cannot read a month token when it is not exactly two
  parts around one hyphen that \<open>int\<close> accepts: reading it raises. In both bulk handlers
  an edited record with such a token is passed over: the batch gives what it gives
  without that record, so the records after it are processed as usual; the batch always
  returns the whole record set; and every record of the set whose own token cannot be
  read keeps its date, whatever else the batch shifts.
\<close>

theorem bulk_shift_skips_malformed:
  "(parse_ym (Date e) = None \<longrightarrow>
      shift_selected_plus (e # edited) data = shift_selected_plus edited data \<and>
      shift_selected_minus (e # edited) data = shift_selected_minus edited data) \<and>
   shift_selected_plus edited data =
     shift_rows shift_plus (filter (\<lambda>e. parse_ym (Date e) \<noteq> None) edited) data \<and>
   shift_selected_minus edited data =
     shift_rows shift_minus (filter (\<lambda>e. parse_ym (Date e) \<noteq> None) edited) data \<and>
   length (shift_selected_plus edited data) = length data \<and>
   length (shift_selected_minus edited data) = length data \<and>
   (\<forall>i < length data. parse_ym (Date (data ! i)) = None \<longrightarrow>
      shift_selected_plus edited data ! i = data ! i \<and>
      shift_selected_minus edited data ! i = data ! i)"
proof -
  have sel: "shift_selected_plus ed data = shift_rows shift_plus ed data"
    "shift_selected_minus ed data = shift_rows shift_minus ed data" for ed
    by (cases ed; simp add: shift_selected_plus_def shift_selected_minus_def)+
  have a: "parse_ym (Date e) = None \<longrightarrow>
      shift_selected_plus (e # edited) data = shift_selected_plus edited data \<and>
      shift_selected_minus (e # edited) data = shift_selected_minus edited data"
    unfolding sel by (simp add: shift_plus_def shift_minus_def)
  have b: "shift_selected_plus edited data =
     shift_rows shift_plus (filter (\<lambda>e. parse_ym (Date e) \<noteq> None) edited) data"
    unfolding sel using shift_rows_filter [of shift_plus edited data]
    by (simp add: shift_plus_None)
  have c: "shift_selected_minus edited data =
     shift_rows shift_minus (filter (\<lambda>e. parse_ym (Date e) \<noteq> None) edited) data"
    unfolding sel using shift_rows_filter [of shift_minus edited data]
    by (simp add: shift_minus_None)
  have d: "length (shift_selected_plus edited data) = length data"
    "length (shift_selected_minus edited data) = length data"
    unfolding sel by (rule length_shift_rows)+
  have f: "\<forall>i < length data. parse_ym (Date (data ! i)) = None \<longrightarrow>
      shift_selected_plus edited data ! i = data ! i \<and>
      shift_selected_minus edited data ! i = data ! i"
    unfolding sel by (simp add: shift_rows_keeps shift_plus_None shift_minus_None)
  from a b c d f show ?thesis by blast
qed

theorem bulk_shift_skips_malformed_witness:
  "parse_ym (Date \<lparr>Project = ''P'', Date = ''2025/01'', Phase = Some ''Design'', MM = 3,
       Employees = None\<rparr>) = None \<and>
   shift_selected_plus
     [\<lparr>Project = ''P'', Date = ''2025/01'', Phase = Some ''Design'', MM = 3, Employees = None\<rparr>,
      \<lparr>Project = ''Q'', Date = ''2025-12'', Phase = Some ''Testing'', MM = 5, Employees = None\<rparr>]
     [\<lparr>Project = ''P'', Date = ''2025/01'', Phase = Some ''Design'', MM = 3, Employees = None\<rparr>,
      \<lparr>Project = ''Q'', Date = ''2025-12'', Phase = Some ''Testing'', MM = 5, Employees = None\<rparr>] =
   shift_selected_plus
     [\<lparr>Project = ''Q'', Date = ''2025-12'', Phase = Some ''Testing'', MM = 5, Employees = None\<rparr>]
     [\<lparr>Project = ''P'', Date = ''2025/01'', Phase = Some ''Design'', MM = 3, Employees = None\<rparr>,
      \<lparr>Project = ''Q'', Date = ''2025-12'', Phase = Some ''Testing'', MM = 5, Employees = None\<rparr>] \<and>
   shift_selected_plus
     [\<lparr>Project = ''Q'', Date = ''2025-12'', Phase = Some ''Testing'', MM = 5, Employees = None\<rparr>]
     [\<lparr>Project = ''P'', Date = ''2025/01'', Phase = Some ''Design'', MM = 3, Employees = None\<rparr>,
      \<lparr>Project = ''Q'', Date = ''2025-12'', Phase = Some ''Testing'', MM = 5, Employees = None\<rparr>] =
     [\<lparr>Project = ''P'', Date = ''2025/01'', Phase = Some ''Design'', MM = 3, Employees = None\<rparr>,
      \<lparr>Project = ''Q'', Date = ''2026-01'', Phase = Some ''Testing'', MM = 5, Employees = None\<rparr>]"
proof -
  let ?bad = "\<lparr>Project = ''P'', Date = ''2025/01'', Phase = Some ''Design'', MM = 3,
       Employees = None\<rparr>"
  let ?good = "\<lparr>Project = ''Q'', Date = ''2025-12'', Phase = Some ''Testing'', MM = 5,
       Employees = None\<rparr>"
  have h: "parse_ym (Date ?bad) = None" by code_simp
  have g: "shift_plus ''2025-12'' = Some ''2026-01''" by code_simp
  have "shift_selected_plus [?good] [?bad, ?good] =
      [?bad, \<lparr>Project = ''Q'', Date = ''2026-01'', Phase = Some ''Testing'', MM = 5,
       Employees = None\<rparr>]"
    by (simp add: shift_selected_plus_def g set_date_def same_phase_def)
  with h bulk_shift_skips_malformed [of ?bad "[?good]" "[?bad, ?good]"] show ?thesis
    by simp
qed

section \<open>Required columns\<close>

lemma ensure_columns_complete:
  "set required \<subseteq> set columns \<Longrightarrow> ensure_columns columns required name = Inr ()"
  by (auto simp add: ensure_columns_def filter_empty_conv)

lemma ensure_columns_missing:
  "\<not> set required \<subseteq> set columns \<Longrightarrow>
   ensure_columns columns required name =
     Inl (ValueError (name @ '' is missing required columns: ''
            @ join '', '' (filter (\<lambda>c. c \<notin> set columns) required)))"
  by (auto simp add: ensure_columns_def filter_empty_conv)

text \<open>
  Claim C9. A record set that lacks a required column fails the check with the message
  "<name> is missing required columns: " followed by the required columns that are absent,
  each once, in the order of the requirement, and by nothing else. The meta set is
  checked first: when it lacks a column, or when it is complete and the allocations set
  lacks one, the script stops with that message and the rest of the script, which computes
  every derived view, is not run; the script goes on only when both sets are complete.
\<close>

theorem missing_columns_fail_fast:
  "(\<not> set required \<subseteq> set columns \<longrightarrow>
      ensure_columns columns required name =
        Inl (ValueError (name @ '' is missing required columns: ''
               @ join '', '' (filter (\<lambda>c. c \<notin> set columns) required))) \<and>
      set (filter (\<lambda>c. c \<notin> set columns) required) = set required - set columns) \<and>
   (\<not> set [''Project'', ''Department'', ''Total_MM''] \<subseteq> set meta_columns \<longrightarrow>
      startup meta_columns alloc_columns rest =
        Stopped (''Data error: Meta dataframe is missing required columns: ''
          @ join '', '' (filter (\<lambda>c. c \<notin> set meta_columns)
               [''Project'', ''Department'', ''Total_MM'']))) \<and>
   (set [''Project'', ''Department'', ''Total_MM''] \<subseteq> set meta_columns \<and>
    \<not> set [''Project'', ''Date'', ''Phase'', ''MM''] \<subseteq> set alloc_columns \<longrightarrow>
      startup meta_columns alloc_columns rest =
        Stopped (''Data error: Allocations dataframe is missing required columns: ''
          @ join '', '' (filter (\<lambda>c. c \<notin> set alloc_columns)
               [''Project'', ''Date'', ''Phase'', ''MM'']))) \<and>
   (\<forall>v. startup meta_columns alloc_columns rest = Continued v \<longrightarrow>
      set [''Project'', ''Department'', ''Total_MM''] \<subseteq> set meta_columns \<and>
      set [''Project'', ''Date'', ''Phase'', ''MM''] \<subseteq> set alloc_columns)"
proof -
  let ?mreq = "[''Project'', ''Department'', ''Total_MM'']"
  let ?areq = "[''Project'', ''Date'', ''Phase'', ''MM'']"
  let ?acols = "if ''Employees'' \<notin> set alloc_columns then alloc_columns @ [''Employees'']
              else alloc_columns"
  have a: "\<not> set required \<subseteq> set columns \<longrightarrow>
      ensure_columns columns required name =
        Inl (ValueError (name @ '' is missing required columns: ''
               @ join '', '' (filter (\<lambda>c. c \<notin> set columns) required))) \<and>
      set (filter (\<lambda>c. c \<notin> set columns) required) = set required - set columns"
    using ensure_columns_missing [of required columns name] by auto
  have sub: "set ?areq \<subseteq> set ?acols \<longleftrightarrow> set ?areq \<subseteq> set alloc_columns"
    by auto
  have flt: "filter (\<lambda>c. c \<notin> set ?acols) ?areq = filter (\<lambda>c. c \<notin> set alloc_columns) ?areq"
    by auto
  have b: "startup meta_columns alloc_columns rest =
        Stopped (''Data error: Meta dataframe is missing required columns: ''
          @ join '', '' (filter (\<lambda>c. c \<notin> set meta_columns) ?mreq))"
    if "\<not> set ?mreq \<subseteq> set meta_columns"
    unfolding startup_def load_checks_def
      ensure_columns_missing [OF that, of "''Meta dataframe''"]
    by simp
  have c: "startup meta_columns alloc_columns rest =
        Stopped (''Data error: Allocations dataframe is missing required columns: ''
          @ join '', '' (filter (\<lambda>c. c \<notin> set alloc_columns) ?areq))"
    if m: "set ?mreq \<subseteq> set meta_columns" and al: "\<not> set ?areq \<subseteq> set alloc_columns"
  proof -
    from al have "\<not> set ?areq \<subseteq> set ?acols" using sub by blast
    from ensure_columns_missing [OF this, of "''Allocations dataframe''"]
    show ?thesis
      unfolding startup_def load_checks_def Let_def
        ensure_columns_complete [OF m, of "''Meta dataframe''"] flt
      by simp
  qed
  have d: "set ?mreq \<subseteq> set meta_columns \<and> set ?areq \<subseteq> set alloc_columns"
    if "startup meta_columns alloc_columns rest = Continued v" for v
    using that b c by (metis run.distinct(1))
  from a b c d show ?thesis by blast
qed

theorem missing_columns_fail_fast_witness:
  "\<not> set [''Project'', ''Department'', ''Total_MM''] \<subseteq> set [''Project'', ''Total_MM''] \<and>
   startup [''Project'', ''Total_MM''] [''Project'', ''Date'', ''Phase'', ''MM''] length =
     Stopped ''Data error: Meta dataframe is missing required columns: Department'' \<and>
   set [''Project'', ''Department'', ''Total_MM''] \<subseteq> set [''Project'', ''Department'', ''Total_MM''] \<and>
   \<not> set [''Project'', ''Date'', ''Phase'', ''MM''] \<subseteq> set [''Project'', ''MM''] \<and>
   startup [''Project'', ''Department'', ''Total_MM''] [''Project'', ''MM''] length =
     Stopped ''Data error: Allocations dataframe is missing required columns: Date, Phase''"
proof -
  have h1: "\<not> set [''Project'', ''Department'', ''Total_MM''] \<subseteq> set [''Project'', ''Total_MM'']"
    by simp
  have h2: "set [''Project'', ''Department'', ''Total_MM''] \<subseteq>
      set [''Project'', ''Department'', ''Total_MM''] \<and>
    \<not> set [''Project'', ''Date'', ''Phase'', ''MM''] \<subseteq> set [''Project'', ''MM'']"
    by simp
  from h1 h2
    missing_columns_fail_fast [of "[]" "[]" "[]" "[''Project'', ''Total_MM'']"
      "[''Project'', ''Date'', ''Phase'', ''MM'']" length]
    missing_columns_fail_fast [of "[]" "[]" "[]" "[''Project'', ''Department'', ''Total_MM'']"
      "[''Project'', ''MM'']" length]
  show ?thesis by simp
qed

section \<open>Conflicts, bands and capacity\<close>

lemma conflicts_loop_filter:
  "conflicts_loop d cs =
     cs @ map (\<lambda>((emp, date), data).
                \<lparr>employee = emp, month = date, conflict_total_mm = total_mm data,
                 percent = total_mm data / 4 * 100, conflict_projects = projects data\<rparr>)
            (filter (\<lambda>(key, data). total_mm data > 4) d)"
  by (induction d cs rule: conflicts_loop.induct) simp_all

text \<open>
  Claim C3. The conflicts are, in the order of the mapping, one record for each entry
  whose total is above 4.0 and none for any other entry; the record carries the employee,
  the month, the total, the percent \<open>total / 4.0 * 100\<close> and the entry's list of
  (project, effort) pairs. An entry with total 4.0 gives no conflict; one with total 4.01
  gives a conflict with percent 100.25.
\<close>

theorem conflicts_exact:
  "find_conflicts d =
     map (\<lambda>((emp, date), data).
            \<lparr>employee = emp, month = date, conflict_total_mm = total_mm data,
             percent = total_mm data / 4 * 100, conflict_projects = projects data\<rparr>)
       (filter (\<lambda>(key, data). total_mm data > 4) d) \<and>
   find_conflicts [((emp, date), \<lparr>total_mm = 4.0, projects = ps\<rparr>)] = [] \<and>
   find_conflicts [((emp, date), \<lparr>total_mm = 4.01, projects = ps\<rparr>)] =
     [\<lparr>employee = emp, month = date, conflict_total_mm = 4.01, percent = 100.25,
       conflict_projects = ps\<rparr>]"
  by (simp add: find_conflicts_def conflicts_loop_filter)

text \<open>
  Claim C4 as the spec states it fails at \<open>p = 0\<close>: the class is the empty string,
  not \<open>"none"\<close>.
\<close>

theorem cell_class_zero_counterexample:
  "cell_class 0 = [] \<and> cell_class 0 \<noteq> ''none''"
  by (simp add: cell_class_def)

text \<open>
  Claim C4, amended. For a percent \<open>p \<ge> 0\<close> the class is the empty string when
  \<open>p = 0\<close>, \<open>"low"\<close> when \<open>0 < p < 50\<close>, \<open>"medium"\<close> when \<open>50 \<le> p < 75\<close>, \<open>"high"\<close> when
  \<open>75 \<le> p \<le> 100\<close> and \<open>"over"\<close> when \<open>p > 100\<close>; so 50 is medium, 75 and 100 are high
  and 100.01 is over.
\<close>

theorem cell_class_bands:
  "(p = 0 \<longrightarrow> cell_class p = []) \<and>
   (0 < p \<and> p < 50 \<longrightarrow> cell_class p = ''low'') \<and>
   (50 \<le> p \<and> p < 75 \<longrightarrow> cell_class p = ''medium'') \<and>
   (75 \<le> p \<and> p \<le> 100 \<longrightarrow> cell_class p = ''high'') \<and>
   (100 < p \<longrightarrow> cell_class p = ''over'') \<and>
   cell_class 50 = ''medium'' \<and> cell_class 75 = ''high'' \<and> cell_class 100 = ''high'' \<and>
   cell_class 100.01 = ''over''"
  by (simp add: cell_class_def)

theorem cell_class_bands_witness:
  "cell_class 0 = [] \<and>
   (0::real) < 25 \<and> (25::real) < 50 \<and> cell_class 25 = ''low'' \<and>
   (50::real) \<le> 60 \<and> (60::real) < 75 \<and> cell_class 60 = ''medium'' \<and>
   (75::real) \<le> 80 \<and> (80::real) \<le> 100 \<and> cell_class 80 = ''high'' \<and>
   (100::real) < 120 \<and> cell_class 120 = ''over''"
  using cell_class_bands [of 0] cell_class_bands [of 25] cell_class_bands [of 60]
    cell_class_bands [of 80] cell_class_bands [of 120]
  by simp

lemma month_total_sum:
  "month_total alloc m = (\<Sum>r\<leftarrow>alloc. if Date r = m then MM r else 0)"
  by (induction alloc) (simp_all add: month_total_def)

text \<open>
  Claim C5. The demand of a month is the sum of the effort of all the records of that
  month: it does not change when the project and the phase of the records change, and the
  capacity rows the script computes are the same for every selection of the department
  filter, each holding the demand of its month over the whole record set.
\<close>

theorem demand_department_invariant:
  "month_total alloc m = (\<Sum>r\<leftarrow>alloc. if Date r = m then MM r else 0) \<and>
   month_total (map (\<lambda>r. r\<lparr>Project := f r, Phase := g r\<rparr>) alloc) m = month_total alloc m \<and>
   capacity_section st dept all_months = capacity_section st ''All'' all_months \<and>
   map cap_total_mm (capacity_section st dept all_months) =
     map (month_total (alloc_data st)) (take 6 all_months)"
  by (simp add: month_total_sum capacity_section_def capacity_data_def comp_def cong: if_cong)

section \<open>Employee allocations\<close>

lemma add_alloc_inv:
  assumes "\<forall>kv \<in> set d. total_mm (snd kv) = sum_list (map snd (projects (snd kv)))"
  shows "\<forall>kv \<in> set (add_alloc key project mm d).
           total_mm (snd kv) = sum_list (map snd (projects (snd kv)))"
  using assms unfolding add_alloc_def Let_def dict_update_def by auto

lemma emp_loop_inv:
  assumes "\<forall>kv \<in> set d. total_mm (snd kv) = sum_list (map snd (projects (snd kv)))"
  shows "\<forall>kv \<in> set (emp_loop pyfloat row parts d).
           total_mm (snd kv) = sum_list (map snd (projects (snd kv)))"
  using assms
proof (induction parts arbitrary: d)
  case Nil
  then show ?case by simp
next
  case (Cons p parts)
  show ?case
  proof (cases "has_parens p")
    case False
    with Cons show ?thesis by simp
  next
    case True
    show ?thesis
    proof (cases "pyfloat (seg_number p)")
      case None
      with True Cons.prems show ?thesis by simp
    next
      case (Some mm)
      have "\<forall>kv \<in> set (add_alloc (seg_name p, Date row) (Project row) mm d).
              total_mm (snd kv) = sum_list (map snd (projects (snd kv)))"
        using Cons.prems by (rule add_alloc_inv)
      from Cons.IH [OF this] True Some show ?thesis by simp
    qed
  qed
qed

lemma row_step_inv:
  assumes "\<forall>kv \<in> set d. total_mm (snd kv) = sum_list (map snd (projects (snd kv)))"
  shows "\<forall>kv \<in> set (row_step pyfloat row d).
           total_mm (snd kv) = sum_list (map snd (projects (snd kv)))"
  using assms emp_loop_inv [OF assms] by (simp add: row_step_def split: option.splits)

lemma rows_loop_inv:
  assumes "\<forall>kv \<in> set d. total_mm (snd kv) = sum_list (map snd (projects (snd kv)))"
  shows "\<forall>kv \<in> set (rows_loop pyfloat rows d).
           total_mm (snd kv) = sum_list (map snd (projects (snd kv)))"
  using assms
proof (induction rows arbitrary: d)
  case Nil
  then show ?case by simp
next
  case (Cons row rows)
  from Cons.IH [OF row_step_inv [OF Cons.prems]] show ?case by simp
qed

text \<open>
  Claim C10. In the mapping built from any prefix of the record set, and in the mapping
  as it stands after any part of the next record's annotation has been processed on top
  of it, the total of every entry is the sum of the efforts in its list of projects.
\<close>

theorem totals_match_projects:
  "(\<forall>kv \<in> set (employee_allocations pyfloat (take n alloc)).
      total_mm (snd kv) = sum_list (map snd (projects (snd kv)))) \<and>
   (\<forall>kv \<in> set (emp_loop pyfloat row parts (employee_allocations pyfloat (take n alloc))).
      total_mm (snd kv) = sum_list (map snd (projects (snd kv))))"
proof -
  have "\<forall>kv \<in> set ([] :: allocations). total_mm (snd kv) = sum_list (map snd (projects (snd kv)))"
    by simp
  then have a: "\<forall>kv \<in> set (employee_allocations pyfloat (take n alloc)).
      total_mm (snd kv) = sum_list (map snd (projects (snd kv)))"
    unfolding employee_allocations_def by (rule rows_loop_inv)
  from a emp_loop_inv [OF a] show ?thesis by blast
qed

theorem totals_match_projects_witness:
  "((''Alice'', ''2025-01''), \<lparr>total_mm = 3.5, projects = [(''P'', 2), (''Q'', 1.5)]\<rparr>)
     \<in> set (employee_allocations py_float (take 2
         [\<lparr>Project = ''P'', Date = ''2025-01'', Phase = Some ''Design'', MM = 3,
            Employees = Some ''Alice (2.0), Bob (1.0)''\<rparr>,
          \<lparr>Project = ''Q'', Date = ''2025-01'', Phase = Some ''Testing'', MM = 5,
            Employees = Some ''Alice (1.5)''\<rparr>,
          \<lparr>Project = ''R'', Date = ''2025-01'', Phase = Some ''Testing'', MM = 1,
            Employees = Some ''Alice (1.0)''\<rparr>])) \<and>
   total_mm (snd ((''Alice'', ''2025-01''),
       \<lparr>total_mm = 3.5, projects = [(''P'', 2), (''Q'', 1.5)]\<rparr>)) =
     sum_list (map snd (projects (snd ((''Alice'', ''2025-01''),
       \<lparr>total_mm = 3.5, projects = [(''P'', 2), (''Q'', 1.5)]\<rparr>))))"
proof -
  let ?alloc = "[\<lparr>Project = ''P'', Date = ''2025-01'', Phase = Some ''Design'', MM = 3,
            Employees = Some ''Alice (2.0), Bob (1.0)''\<rparr>,
          \<lparr>Project = ''Q'', Date = ''2025-01'', Phase = Some ''Testing'', MM = 5,
            Employees = Some ''Alice (1.5)''\<rparr>,
          \<lparr>Project = ''R'', Date = ''2025-01'', Phase = Some ''Testing'', MM = 1,
            Employees = Some ''Alice (1.0)''\<rparr>]"
  have m: "((''Alice'', ''2025-01''), \<lparr>total_mm = 3.5, projects = [(''P'', 2), (''Q'', 1.5)]\<rparr>)
     \<in> set (employee_allocations py_float (take 2 ?alloc))"
    by code_simp
  with totals_match_projects [of py_float 2 ?alloc] show ?thesis by blast
qed

lemma emp_loop_pairs:
  "emp_loop pyfloat row parts d =
     fold (\<lambda>(name, mm). add_alloc (name, Date row) (Project row) mm) (emp_pairs pyfloat parts) d"
  by (induction parts arbitrary: d) (simp_all split: option.splits)

lemma emp_pairs_takeWhile:
  "emp_pairs pyfloat parts =
     List.map_filter (\<lambda>p. map_option (Pair (seg_name p)) (pyfloat (seg_number p)))
       (takeWhile (\<lambda>p. pyfloat (seg_number p) \<noteq> None) (filter has_parens parts))"
  by (induction parts) (auto simp add: List.map_filter_simps split: option.splits)

lemma rows_loop_append:
  "rows_loop pyfloat (rows1 @ rows2) d = rows_loop pyfloat rows2 (rows_loop pyfloat rows1 d)"
  by (induction rows1 arbitrary: d) simp_all

lemma emp_pairs_examples:
  "emp_pairs py_float (emp_parts ''Alice (2.0), garbage'') = [(''Alice'', 2.0)] \<and>
   emp_pairs py_float (emp_parts ''Alice (2.0), Bob (1.5)'') = [(''Alice'', 2.0), (''Bob'', 1.5)]"
  by code_simp

text \<open>
  Claim C2. Segments that lack a \<open>(\<close> or a \<open>)\<close> are passed over and the segments
  after them are read (\<open>emp_pairs_takeWhile\<close>, \<open>emp_pairs_examples\<close>). The claim
  promises the same for a segment whose interior is not a number. It fails there: the
  \<open>try\<close> encloses the loop over the segments of a record, so the first such segment
  ends the record and the well-formed segments after it are lost. In
  \<open>"Alice (2.0), Bob (x), Carol (1.5)"\<close> only Alice reaches the mapping, where the
  loop that collects the names for the grid reads Alice, Bob and Carol from the same
  record.
\<close>

theorem employee_parser_drops_later_segments:
  "emp_pairs py_float (emp_parts ''Alice (2.0), Bob (x), Carol (1.5)'') = [(''Alice'', 2)] \<and>
   employee_allocations py_float
     [\<lparr>Project = ''P'', Date = ''2025-01'', Phase = Some ''Design'', MM = 5,
       Employees = Some ''Alice (2.0), Bob (x), Carol (1.5)''\<rparr>] =
     [((''Alice'', ''2025-01''), \<lparr>total_mm = 2, projects = [(''P'', 2)]\<rparr>)] \<and>
   all_employees
     [\<lparr>Project = ''P'', Date = ''2025-01'', Phase = Some ''Design'', MM = 5,
       Employees = Some ''Alice (2.0), Bob (x), Carol (1.5)''\<rparr>] =
     [''Carol'', ''Bob'', ''Alice'']"
  by code_simp

section \<open>Dominant phase\<close>

lemma sort_key_head:
  assumes "sort_key f xs = y # ys"
  shows "y \<in> set xs \<and> (\<forall>x \<in> set xs. f y \<le> f x)"
proof -
  have s: "set (sort_key f xs) = set xs" by simp
  have "sorted (map f (sort_key f xs))" by (rule sorted_sort_key)
  with assms have "\<forall>z \<in> set ys. f y \<le> f z" by simp
  moreover from s assms have "set xs = insert y (set ys)" by simp
  ultimately show ?thesis by auto
qed

lemma set_map_filter_Phase:
  "set (List.map_filter Phase rows) = {k. \<exists>r \<in> set rows. Phase r = Some k}"
proof (induction rows)
  case Nil
  show ?case by (simp add: List.map_filter_simps)
next
  case (Cons r rows)
  then show ?case by (cases "Phase r") (auto simp add: List.map_filter_simps)
qed

lemma groupby_phase_sum_keys:
  "set (groupby_phase_sum rows) =
     {(k, phase_sum rows k) | k. \<exists>r \<in> set rows. Phase r = Some k}"
  by (auto simp add: groupby_phase_sum_def set_map_filter_Phase)

lemma groupby_phase_sum_empty:
  "groupby_phase_sum rows = [] \<longleftrightarrow> (\<forall>r \<in> set rows. Phase r = None)"
proof -
  have "groupby_phase_sum rows = [] \<longleftrightarrow> set (groupby_phase_sum rows) = {}" by simp
  also have "\<dots> \<longleftrightarrow> (\<forall>r \<in> set rows. Phase r = None)"
    unfolding groupby_phase_sum_keys by (auto, metis not_None_eq)
  finally show ?thesis .
qed

lemma month_mm_and_phase_dominant:
  assumes "r \<in> set df_alloc" "Project r = project" "Date r = ym" "Phase r \<noteq> None"
  shows "\<exists>ph. month_mm_and_phase df_alloc project ym =
             Inr (phase_sum (select_rows df_alloc project ym) ph, Some ph) \<and>
           (\<exists>r' \<in> set (select_rows df_alloc project ym). Phase r' = Some ph) \<and>
           (\<forall>r' \<in> set (select_rows df_alloc project ym). \<forall>k. Phase r' = Some k \<longrightarrow>
              phase_sum (select_rows df_alloc project ym) k
                \<le> phase_sum (select_rows df_alloc project ym) ph)"
proof -
  let ?rows = "select_rows df_alloc project ym"
  let ?grp = "groupby_phase_sum ?rows"
  from assms have r: "r \<in> set ?rows" by (simp add: select_rows_def)
  then have ne: "?rows \<noteq> []" by auto
  from r assms(4) have "?grp \<noteq> []" by (auto simp add: groupby_phase_sum_empty)
  then have "sort_values_desc ?grp \<noteq> []"
    unfolding sort_values_desc_def by (metis length_sort length_0_conv)
  then obtain ph mm rest where srt: "sort_values_desc ?grp = (ph, mm) # rest"
    by (cases "sort_values_desc ?grp") auto
  from sort_key_head [OF srt [unfolded sort_values_desc_def]]
  have mem: "(ph, mm) \<in> set ?grp" and top: "\<forall>x \<in> set ?grp. snd x \<le> mm"
    by auto
  from mem have mm: "mm = phase_sum ?rows ph" and ex: "\<exists>r' \<in> set ?rows. Phase r' = Some ph"
    by (auto simp add: groupby_phase_sum_keys)
  have res: "month_mm_and_phase df_alloc project ym = Inr (phase_sum ?rows ph, Some ph)"
    using ne srt mm by (simp add: month_mm_and_phase_def)
  have "phase_sum ?rows k \<le> phase_sum ?rows ph" if "r' \<in> set ?rows" "Phase r' = Some k" for r' k
  proof -
    from that have "(k, phase_sum ?rows k) \<in> set ?grp"
      unfolding groupby_phase_sum_keys by auto
    with top mm show ?thesis by auto
  qed
  with res ex show ?thesis by blast
qed

lemma month_mm_and_phase_example:
  "month_mm_and_phase
     [\<lparr>Project = ''P'', Date = ''2025-01'', Phase = Some ''Design'', MM = 3.0, Employees = None\<rparr>,
      \<lparr>Project = ''P'', Date = ''2025-01'', Phase = Some ''Testing'', MM = 5.0, Employees = None\<rparr>]
     ''P'' ''2025-01'' = Inr (5.0, Some ''Testing'')"
  by code_simp

lemma month_phase_missing_phase:
  "month_phase
     [\<lparr>Project = ''P'', Date = ''2025-01'', Phase = None, MM = 3.0, Employees = None\<rparr>]
     ''P'' ''2025-01'' = Some ''nan''"
  by code_simp

text \<open>
  Claim C1. Whenever one of the matching records has a phase, the query returns the
  phase of greatest summed effort together with the sum of that phase alone
  (\<open>month_mm_and_phase_dominant\<close>, \<open>month_mm_and_phase_example\<close>). The claim promises
  this for every record set with a matching record. It fails when no matching record
  has a phase: the grouping is empty, reading its first entry raises, and the query
  returns nothing, where \<open>month_phase\<close> on the same records answers \<open>"nan"\<close>.
\<close>

theorem month_mm_and_phase_missing_phase:
  "select_rows
     [\<lparr>Project = ''P'', Date = ''2025-01'', Phase = None, MM = 3.0, Employees = None\<rparr>]
     ''P'' ''2025-01'' \<noteq> [] \<and>
   month_mm_and_phase
     [\<lparr>Project = ''P'', Date = ''2025-01'', Phase = None, MM = 3.0, Employees = None\<rparr>]
     ''P'' ''2025-01'' = Inl (IndexError ''index 0 is out of bounds for axis 0 with size 0'')"
  by code_simp

end
